theory Spec2Isabelle
  imports Main "HOL-Library.Word"
begin

section \<open>Strings of the source language\<close>

text \<open>
  A string of the program is a sequence of UTF-16 code units, and \<open>source.split("")\<close>
  yields one array element per code unit. A code unit is a 16-bit word; \<open>ch\<close> and
  \<open>str\<close> write the ASCII characters and literals of the source text.
\<close>

type_synonym code_unit = "16 word"
type_synonym jsstring = "code_unit list"

definition ch :: "char \<Rightarrow> code_unit" where
  "ch c = of_char c"

definition str :: "string \<Rightarrow> jsstring" where
  "str s = map ch s"

text \<open>
  The case conversions of the runtime beyond ASCII come from the Unicode tables of the
  engine, which are no part of the repository: they are a parameter of the model.
  \<open>upper_of U c\<close> is \<open>c.toUpperCase()\<close> and \<open>lower_of U c\<close> is \<open>c.toLowerCase()\<close>
  for a one-unit string \<open>c\<close> at or above U+0080 (the result may be longer than one unit).
  Below U+0080 the conversions are fixed: only the letters a-z and A-Z change.
\<close>

record unicode =
  upper_of :: "code_unit \<Rightarrow> jsstring"
  lower_of :: "code_unit \<Rightarrow> jsstring"

definition toUpperCase :: "unicode \<Rightarrow> code_unit \<Rightarrow> jsstring" where
  "toUpperCase U c =
     (if ch CHR ''a'' \<le> c \<and> c \<le> ch CHR ''z'' then [c - 32]
      else if c < 128 then [c]
      else upper_of U c)"

definition toLowerCase :: "unicode \<Rightarrow> code_unit \<Rightarrow> jsstring" where
  "toLowerCase U c =
     (if ch CHR ''A'' \<le> c \<and> c \<le> ch CHR ''Z'' then [c + 32]
      else if c < 128 then [c]
      else lower_of U c)"

text \<open>A runtime whose tables give no code unit beyond ASCII a case form.\<close>

definition ascii_only :: unicode where
  "ascii_only = \<lparr>upper_of = (\<lambda>c. [c]), lower_of = (\<lambda>c. [c])\<rparr>"

text \<open>\<open>xs[i]\<close> of an array: \<open>undefined\<close> (here \<open>None\<close>) out of range.\<close>

definition at :: "'a list \<Rightarrow> nat \<Rightarrow> 'a option" where
  "at xs i = (if i < length xs then Some (xs ! i) else None)"

text \<open>\<open>src.shift()\<close>: removes the first element; on an empty array nothing changes.\<close>

definition shift :: "'a list \<Rightarrow> 'a list" where
  "shift xs = (case xs of [] \<Rightarrow> [] | _ # r \<Rightarrow> r)"

section \<open>Built-in predicates of the runtime\<close>

text \<open>
  \<open>/\s/.test(c)\<close> for a one-unit string: the WhiteSpace and LineTerminator code points
  of ECMAScript (tab, LF, VT, FF, CR, space, U+00A0, U+1680, U+2000..U+200A, U+2028,
  U+2029, U+202F, U+205F, U+3000, U+FEFF).
\<close>

definition isWhitespace :: "code_unit \<Rightarrow> bool" where
  "isWhitespace c =
     (c = 0x9 \<or> c = 0xA \<or> c = 0xB \<or> c = 0xC \<or> c = 0xD \<or> c = 0x20 \<or> c = 0xA0
      \<or> c = 0x1680 \<or> (0x2000 \<le> c \<and> c \<le> 0x200A) \<or> c = 0x2028 \<or> c = 0x2029
      \<or> c = 0x202F \<or> c = 0x205F \<or> c = 0x3000 \<or> c = 0xFEFF)"

definition isDigit :: "code_unit \<Rightarrow> bool" where
  "isDigit c = (ch CHR ''0'' \<le> c \<and> c \<le> ch CHR ''9'')"

text \<open>
  \<open>isNaN(parseInt(c))\<close> for a one-unit string \<open>c\<close>: \<open>parseInt\<close> reads decimal digits
  after optional white space and a sign, so one unit parses exactly when it is a digit.
\<close>

definition parseInt_isNaN :: "code_unit \<Rightarrow> bool" where
  "parseInt_isNaN c = (\<not> isDigit c)"

text \<open>
  \<open>isNaN(Number(word))\<close>: \<open>Number\<close> applied to a string is not \<open>NaN\<close> exactly when
  the string, with white space trimmed at both ends, is empty or a StrNumericLiteral of
  ECMAScript: a decimal literal with optional sign, fraction and exponent, \<open>Infinity\<close>
  with optional sign, or an unsigned binary, octal or hexadecimal integer literal.
\<close>

definition decimalDigits :: "jsstring \<Rightarrow> bool" where
  "decimalDigits s = (s \<noteq> [] \<and> list_all isDigit s)"

definition signedInteger :: "jsstring \<Rightarrow> bool" where
  "signedInteger s =
     (case s of [] \<Rightarrow> False
      | c # r \<Rightarrow> if c = ch CHR ''+'' \<or> c = ch CHR ''-'' then decimalDigits r
                 else decimalDigits s)"

definition exponentPartOpt :: "jsstring \<Rightarrow> bool" where
  "exponentPartOpt s =
     (case s of [] \<Rightarrow> True
      | c # r \<Rightarrow> (c = ch CHR ''e'' \<or> c = ch CHR ''E'') \<and> signedInteger r)"

definition strUnsignedDecimalLiteral :: "jsstring \<Rightarrow> bool" where
  "strUnsignedDecimalLiteral s =
     (s = str ''Infinity'' \<or>
      (let ip = takeWhile isDigit s; r = dropWhile isDigit s in
       if at r 0 = Some (ch CHR ''.'') then
         (let fp = takeWhile isDigit (shift r); e = dropWhile isDigit (shift r) in
          (ip \<noteq> [] \<or> fp \<noteq> []) \<and> exponentPartOpt e)
       else ip \<noteq> [] \<and> exponentPartOpt r))"

definition strDecimalLiteral :: "jsstring \<Rightarrow> bool" where
  "strDecimalLiteral s =
     (case s of [] \<Rightarrow> False
      | c # r \<Rightarrow> if c = ch CHR ''+'' \<or> c = ch CHR ''-'' then strUnsignedDecimalLiteral r
                 else strUnsignedDecimalLiteral s)"

definition isBinaryDigit :: "code_unit \<Rightarrow> bool" where
  "isBinaryDigit c = (c = ch CHR ''0'' \<or> c = ch CHR ''1'')"

definition isOctalDigit :: "code_unit \<Rightarrow> bool" where
  "isOctalDigit c = (ch CHR ''0'' \<le> c \<and> c \<le> ch CHR ''7'')"

definition isHexDigit :: "code_unit \<Rightarrow> bool" where
  "isHexDigit c =
     (isDigit c \<or> (ch CHR ''a'' \<le> c \<and> c \<le> ch CHR ''f'')
      \<or> (ch CHR ''A'' \<le> c \<and> c \<le> ch CHR ''F''))"

definition nonDecimalIntegerLiteral :: "jsstring \<Rightarrow> bool" where
  "nonDecimalIntegerLiteral s =
     (case s of
        z # x # r \<Rightarrow>
          z = ch CHR ''0'' \<and> r \<noteq> [] \<and>
          (((x = ch CHR ''b'' \<or> x = ch CHR ''B'') \<and> list_all isBinaryDigit r)
           \<or> ((x = ch CHR ''o'' \<or> x = ch CHR ''O'') \<and> list_all isOctalDigit r)
           \<or> ((x = ch CHR ''x'' \<or> x = ch CHR ''X'') \<and> list_all isHexDigit r))
      | _ \<Rightarrow> False)"

definition trim :: "jsstring \<Rightarrow> jsstring" where
  "trim s = rev (dropWhile isWhitespace (rev (dropWhile isWhitespace s)))"

definition Number_isNaN :: "jsstring \<Rightarrow> bool" where
  "Number_isNaN s =
     (let t = trim s in
      \<not> (t = [] \<or> strDecimalLiteral t \<or> nonDecimalIntegerLiteral t))"

section \<open>Tokens\<close>

datatype TokenType =
    Number | Name | StringLiteral | Identifier | OpenParen | CloseParen
  | BinaryOperator | OpenBracket | CloseBracket | EndBracket | Equals
  | Let | Const | Args | Arg | Return | Counter | Type | SelfClosingTag
  | While | For | If | ElseIf | Else | From | To | Condition
  | OpenBrace | CloseBrace | Comment
  | StartTemplateString | EndTemplateString | StartInterpolation | EndInterpolation

text \<open>
  The fields \<open>value\<close> and \<open>type\<close> of the interface \<open>Token\<close>. The keyword branch of
  the scanner stores the result of a lookup by name in the enum object, which is
  \<open>undefined\<close> for a name that is not declared: \<open>None\<close> here.
\<close>

record Token =
  value_tok :: jsstring
  type_tok :: "TokenType option"

text \<open>
  The enum object of \<open>TokenType\<close>, by enumerant name, in the order of the declaration.
  (Its reverse entries have the decimal numbers 0..33 as keys.)
\<close>

definition TokenType_names :: "(string \<times> TokenType) list" where
  "TokenType_names =
     [(''Number'', Number), (''Name'', Name), (''StringLiteral'', StringLiteral),
      (''Identifier'', Identifier), (''OpenParen'', OpenParen),
      (''CloseParen'', CloseParen), (''BinaryOperator'', BinaryOperator),
      (''OpenBracket'', OpenBracket), (''CloseBracket'', CloseBracket),
      (''EndBracket'', EndBracket), (''Equals'', Equals), (''Let'', Let),
      (''Const'', Const), (''Args'', Args), (''Arg'', Arg), (''Return'', Return),
      (''Counter'', Counter), (''Type'', Type), (''SelfClosingTag'', SelfClosingTag),
      (''While'', While), (''For'', For), (''If'', If), (''ElseIf'', ElseIf),
      (''Else'', Else), (''From'', From), (''To'', To), (''Condition'', Condition),
      (''OpenBrace'', OpenBrace), (''CloseBrace'', CloseBrace), (''Comment'', Comment),
      (''StartTemplateString'', StartTemplateString),
      (''EndTemplateString'', EndTemplateString),
      (''StartInterpolation'', StartInterpolation),
      (''EndInterpolation'', EndInterpolation)]"

definition TokenType_lookup :: "jsstring \<Rightarrow> TokenType option" where
  "TokenType_lookup name = map_of (map (\<lambda>(n, t). (str n, t)) TokenType_names) name"

definition specialIdentifiers :: "jsstring list" where
  "specialIdentifiers =
     map str [''let'', ''const'', ''args'', ''arg'', ''return'', ''counter'', ''name'',
              ''type'', ''while'', ''for'', ''if'', ''elseIf'', ''else'', ''from'',
              ''to'', ''condition'']"

section \<open>Character classes\<close>

fun isAlpha :: "unicode \<Rightarrow> code_unit option \<Rightarrow> bool" where
  "isAlpha U None = False"
| "isAlpha U (Some c) =
     (toUpperCase U c \<noteq> toLowerCase U c \<or> c = ch CHR ''_'' \<or> c = ch CHR ''-'')"

fun isNumeric :: "code_unit option \<Rightarrow> bool" where
  "isNumeric None = False"
| "isNumeric (Some c) = (\<not> parseInt_isNaN c)"

section \<open>The tokenizer\<close>

fun skipWhitespace :: "jsstring \<Rightarrow> jsstring" where
  "skipWhitespace [] = []"
| "skipWhitespace (c # cs) = (if isWhitespace c then skipWhitespace cs else c # cs)"

fun skipToNewline :: "jsstring \<Rightarrow> jsstring" where
  "skipToNewline [] = []"
| "skipToNewline (c # cs) = (if c \<noteq> 0xA then skipToNewline cs else c # cs)"

definition skipComment :: "jsstring \<Rightarrow> jsstring" where
  "skipComment src = (if at src 1 = Some (ch CHR ''/'') then skipToNewline src else src)"

text \<open>
  The inner loop of the string branch: \<open>str\<close> collects the units before the next
  \<open>quote\<close>; the result is \<open>str\<close> and the rest of \<open>src\<close>, the quote included.
\<close>

fun scanString :: "code_unit \<Rightarrow> jsstring \<Rightarrow> jsstring \<Rightarrow> jsstring \<times> jsstring" where
  "scanString quote [] s = (s, [])"
| "scanString quote (c # cs) s =
     (if c \<noteq> quote then scanString quote cs (s @ [c]) else (s, c # cs))"

text \<open>The inner loop of the word branch.\<close>

fun scanWord :: "unicode \<Rightarrow> jsstring \<Rightarrow> jsstring \<Rightarrow> jsstring \<times> jsstring" where
  "scanWord U [] word = (word, [])"
| "scanWord U (c # cs) word =
     (if isAlpha U (Some c) \<or> isNumeric (Some c) then scanWord U cs (word @ [c])
      else (word, c # cs))"

text \<open>
  The classification of a scanned word: \<open>word.charAt(0).toUpperCase() + word.slice(1)\<close>
  is the name looked up in the enum object.
\<close>

definition capitalize :: "unicode \<Rightarrow> jsstring \<Rightarrow> jsstring" where
  "capitalize U word = concat (map (toUpperCase U) (take 1 word)) @ drop 1 word"

definition wordToken :: "unicode \<Rightarrow> jsstring \<Rightarrow> Token" where
  "wordToken U word =
     (if \<not> Number_isNaN word then \<lparr>value_tok = word, type_tok = Some Number\<rparr>
      else if word \<in> set specialIdentifiers then
        \<lparr>value_tok = word, type_tok = TokenType_lookup (capitalize U word)\<rparr>
      else \<lparr>value_tok = word, type_tok = Some Identifier\<rparr>)"

text \<open>
  One iteration of the loop \<open>while (src.length > 0)\<close>: the tokens it pushes and the
  array \<open>src\<close> it leaves. The branches are in the order of the source. (In the string
  branch \<open>src[0]\<close> is a quote, so the case of the empty array there is never taken.)
\<close>

definition body :: "unicode \<Rightarrow> jsstring \<Rightarrow> Token list \<times> jsstring" where
  "body U src0 =
     (let src = skipWhitespace src0 in
      if at src 0 = Some (ch CHR ''/'') \<and> at src 1 = Some (ch CHR ''/'') then
        ([], skipComment src)
      else if at src 0 = Some (ch CHR ''<'') then
        (if at src 1 = Some (ch CHR ''/'') then
           ([\<lparr>value_tok = str ''</'', type_tok = Some EndBracket\<rparr>], shift (shift src))
         else ([\<lparr>value_tok = str ''<'', type_tok = Some OpenBracket\<rparr>], shift src))
      else if at src 0 = Some (ch CHR ''>'') then
        ([\<lparr>value_tok = str ''>'', type_tok = Some CloseBracket\<rparr>], shift src)
      else if at src 0 = Some (ch CHR ''/'') then
        (if at src 1 = Some (ch CHR ''>'') then
           ([\<lparr>value_tok = str ''/>'', type_tok = Some SelfClosingTag\<rparr>], shift (shift src))
         else ([], shift src))
      else if at src 0 = Some (ch CHR ''('') then
        ([\<lparr>value_tok = str ''('', type_tok = Some OpenParen\<rparr>], shift src)
      else if at src 0 = Some (ch CHR '')'') then
        ([\<lparr>value_tok = str '')'', type_tok = Some CloseParen\<rparr>], shift src)
      else if at src 0 = Some (ch CHR ''{'') then
        ([\<lparr>value_tok = str ''{'', type_tok = Some OpenBrace\<rparr>], shift src)
      else if at src 0 = Some (ch CHR ''}'') then
        ([\<lparr>value_tok = str ''}'', type_tok = Some CloseBrace\<rparr>], shift src)
      else if (case at src 0 of None \<Rightarrow> False | Some c \<Rightarrow> c \<in> set (str ''+-*/'')) then
        ([\<lparr>value_tok = take 1 src, type_tok = Some BinaryOperator\<rparr>], shift src)
      else if at src 0 = Some (ch CHR ''='') then
        ([\<lparr>value_tok = str ''='', type_tok = Some Equals\<rparr>], shift src)
      else if at src 0 = Some (ch (CHR 0x22)) \<or> at src 0 = Some (ch (CHR 0x27)) then
        (case src of
           [] \<Rightarrow> ([], [])
         | quote # rest \<Rightarrow>
             (let (s, src') = scanString quote rest [] in
              ([\<lparr>value_tok = s, type_tok = Some StringLiteral\<rparr>], shift src')))
      else if isNumeric (at src 0) \<or> isAlpha U (at src 0) then
        (let (word, src') = scanWord U src [] in ([wordToken U word], src'))
      else ([], shift src))"

text \<open>
  The loop \<open>while (src.length > 0)\<close> with the array \<open>tokens\<close> it fills, and
  \<open>tokenize\<close>, which starts it on the code units of \<open>source\<close> with no token. The
  termination of \<open>loop\<close> is proved below, from what one iteration consumes.
\<close>

function loop :: "unicode \<Rightarrow> jsstring \<Rightarrow> Token list \<Rightarrow> Token list" where
  "loop U src tokens =
     (if length src > 0 then
        (case body U src of (pushed, src') \<Rightarrow> loop U src' (tokens @ pushed))
      else tokens)"
  by pat_completeness auto

definition tokenize :: "unicode \<Rightarrow> jsstring \<Rightarrow> Token list" where
  "tokenize U source = loop U source []"

section \<open>Notions used in the statements and proofs\<close>

text \<open>
  A word character is one the inner loop of the word branch accepts. \<open>singleTokens\<close>
  lists the one-unit tokens whose lexeme is the unit itself, and \<open>isSpecial\<close> holds
  of the units that a branch before the word branch decides.
\<close>

definition isWordChar :: "unicode \<Rightarrow> code_unit \<Rightarrow> bool" where
  "isWordChar U c = (isAlpha U (Some c) \<or> isNumeric (Some c))"

definition singleTokens :: "(code_unit \<times> TokenType) list" where
  "singleTokens =
     [(ch CHR ''<'', OpenBracket), (ch CHR ''>'', CloseBracket), (ch CHR ''('', OpenParen),
      (ch CHR '')'', CloseParen), (ch CHR ''{'', OpenBrace), (ch CHR ''}'', CloseBrace),
      (ch CHR ''+'', BinaryOperator), (ch CHR ''-'', BinaryOperator),
      (ch CHR ''*'', BinaryOperator), (ch CHR ''='', Equals)]"

definition isSpecial :: "code_unit \<Rightarrow> bool" where
  "isSpecial c = (c \<in> set (str ''/<>(){}+-*='') \<or> c = ch (CHR 0x22) \<or> c = ch (CHR 0x27))"

text \<open>The types that the sixteen special identifiers are looked up to, in their order.\<close>

definition keywordTypes :: "TokenType list" where
  "keywordTypes = [Let, Const, Args, Arg, Return, Counter, Name, Type, While, For, If,
     ElseIf, Else, From, To, Condition]"

text \<open>The tokens that the scanner can push at all.\<close>

inductive emitted :: "Token \<Rightarrow> bool" where
  EndBracket: "emitted \<lparr>value_tok = str ''</'', type_tok = Some EndBracket\<rparr>"
| SelfClosingTag: "emitted \<lparr>value_tok = str ''/>'', type_tok = Some SelfClosingTag\<rparr>"
| Single: "(c, ty) \<in> set singleTokens \<Longrightarrow> emitted \<lparr>value_tok = [c], type_tok = Some ty\<rparr>"
| StringLiteral: "emitted \<lparr>value_tok = v, type_tok = Some StringLiteral\<rparr>"
| Number: "\<not> Number_isNaN w \<Longrightarrow> emitted \<lparr>value_tok = w, type_tok = Some Number\<rparr>"
| Keyword: "(w, ty) \<in> set (zip specialIdentifiers keywordTypes) \<Longrightarrow> Number_isNaN w \<Longrightarrow>
            emitted \<lparr>value_tok = w, type_tok = Some ty\<rparr>"
| Identifier: "Number_isNaN w \<Longrightarrow> w \<notin> set specialIdentifiers \<Longrightarrow>
            emitted \<lparr>value_tok = w, type_tok = Some Identifier\<rparr>"

text \<open>The total length of the lexemes of a token list.\<close>

definition lexemes :: "Token list \<Rightarrow> nat" where
  "lexemes ts = sum_list (map (\<lambda>t. length (value_tok t)) ts)"

text \<open>
  \<open>openQuote s\<close>: \<open>s\<close> starts with a quote character that does not occur again in
  \<open>s\<close>. \<open>endsInOpenString U src\<close>: the scan of \<open>src\<close> reaches, at the start of some
  iteration, a string literal whose closing quote is missing (the string branch then
  takes all the remaining input as the lexeme).
\<close>

definition openQuote :: "jsstring \<Rightarrow> bool" where
  "openQuote s =
     (case s of [] \<Rightarrow> False
      | q # rest \<Rightarrow> (q = ch (CHR 0x22) \<or> q = ch (CHR 0x27)) \<and> q \<notin> set rest)"

function endsInOpenString :: "unicode \<Rightarrow> jsstring \<Rightarrow> bool" where
  "endsInOpenString U src =
     (if src = [] then False
      else if openQuote (skipWhitespace src) then True
      else endsInOpenString U (snd (body U src)))"
  by pat_completeness auto

section \<open>The branches of one iteration\<close>

lemma at_Nil: "at [] i = None" by (simp add: at_def)
lemma at_Cons_0: "at (x # xs) 0 = Some x" by (simp add: at_def)
lemma at_Cons_Suc: "at (x # xs) (Suc i) = at xs i" by (simp add: at_def)
lemma at_Cons_1: "at (x # xs) 1 = at xs 0" by (simp add: at_def)
lemmas at_simps = at_Nil at_Cons_0 at_Cons_Suc at_Cons_1

lemma shift_simps: "shift [] = []" "shift (x # xs) = xs" by (simp_all add: shift_def)

lemma skipWhitespace_dropWhile: "skipWhitespace s = dropWhile isWhitespace s"
  by (induction s) auto

lemma skipToNewline_dropWhile: "skipToNewline s = dropWhile (\<lambda>c. c \<noteq> 0xA) s"
  by (induction s) auto

lemma scanString_eq:
  "scanString q s acc = (acc @ takeWhile (\<lambda>c. c \<noteq> q) s, dropWhile (\<lambda>c. c \<noteq> q) s)"
  by (induction s arbitrary: acc) auto

lemma scanWord_eq:
  "scanWord U s acc = (acc @ takeWhile (isWordChar U) s, dropWhile (isWordChar U) s)"
  by (induction s arbitrary: acc) (auto simp: isWordChar_def)

lemmas body_unfold = body_def Let_def at_simps shift_simps ch_def str_def

lemma body_Empty: "skipWhitespace s = [] \<Longrightarrow> body U s = ([], [])"
  by (simp add: body_unfold)

lemma body_Comment:
  "skipWhitespace s = ch CHR ''/'' # ch CHR ''/'' # r \<Longrightarrow> body U s = ([], skipToNewline r)"
  by (simp add: body_unfold skipComment_def)

lemma body_EndBracket:
  "skipWhitespace s = ch CHR ''<'' # ch CHR ''/'' # r \<Longrightarrow>
   body U s = ([\<lparr>value_tok = str ''</'', type_tok = Some EndBracket\<rparr>], r)"
  by (simp add: body_unfold)

lemma body_OpenBracket:
  "skipWhitespace s = ch CHR ''<'' # r \<Longrightarrow> at r 0 \<noteq> Some (ch CHR ''/'') \<Longrightarrow>
   body U s = ([\<lparr>value_tok = str ''<'', type_tok = Some OpenBracket\<rparr>], r)"
  by (simp add: body_unfold)

lemma body_CloseBracket:
  "skipWhitespace s = ch CHR ''>'' # r \<Longrightarrow>
   body U s = ([\<lparr>value_tok = str ''>'', type_tok = Some CloseBracket\<rparr>], r)"
  by (simp add: body_unfold)

lemma body_SelfClosingTag:
  "skipWhitespace s = ch CHR ''/'' # ch CHR ''>'' # r \<Longrightarrow>
   body U s = ([\<lparr>value_tok = str ''/>'', type_tok = Some SelfClosingTag\<rparr>], r)"
  by (simp add: body_unfold)

lemma body_Slash:
  "skipWhitespace s = ch CHR ''/'' # r \<Longrightarrow> at r 0 \<noteq> Some (ch CHR ''/'') \<Longrightarrow>
   at r 0 \<noteq> Some (ch CHR ''>'') \<Longrightarrow> body U s = ([], r)"
  by (simp add: body_unfold)

lemma body_OpenParen:
  "skipWhitespace s = ch CHR ''('' # r \<Longrightarrow>
   body U s = ([\<lparr>value_tok = str ''('', type_tok = Some OpenParen\<rparr>], r)"
  by (simp add: body_unfold)

lemma body_CloseParen:
  "skipWhitespace s = ch CHR '')'' # r \<Longrightarrow>
   body U s = ([\<lparr>value_tok = str '')'', type_tok = Some CloseParen\<rparr>], r)"
  by (simp add: body_unfold)

lemma body_OpenBrace:
  "skipWhitespace s = ch CHR ''{'' # r \<Longrightarrow>
   body U s = ([\<lparr>value_tok = str ''{'', type_tok = Some OpenBrace\<rparr>], r)"
  by (simp add: body_unfold)

lemma body_CloseBrace:
  "skipWhitespace s = ch CHR ''}'' # r \<Longrightarrow>
   body U s = ([\<lparr>value_tok = str ''}'', type_tok = Some CloseBrace\<rparr>], r)"
  by (simp add: body_unfold)

lemma body_BinaryOperator:
  "skipWhitespace s = c # r \<Longrightarrow> c = ch CHR ''+'' \<or> c = ch CHR ''-'' \<or> c = ch CHR ''*'' \<Longrightarrow>
   body U s = ([\<lparr>value_tok = [c], type_tok = Some BinaryOperator\<rparr>], r)"
  by (auto simp add: body_unfold)

lemma body_Equals:
  "skipWhitespace s = ch CHR ''='' # r \<Longrightarrow>
   body U s = ([\<lparr>value_tok = str ''='', type_tok = Some Equals\<rparr>], r)"
  by (simp add: body_unfold)

lemma body_StringLiteral:
  "skipWhitespace s = q # r \<Longrightarrow> q = ch (CHR 0x22) \<or> q = ch (CHR 0x27) \<Longrightarrow>
   body U s = ([\<lparr>value_tok = takeWhile (\<lambda>c. c \<noteq> q) r, type_tok = Some StringLiteral\<rparr>],
               shift (dropWhile (\<lambda>c. c \<noteq> q) r))"
  by (auto simp add: body_unfold scanString_eq)

lemma body_Word:
  "skipWhitespace s = c # r \<Longrightarrow> \<not> isSpecial c \<Longrightarrow> isWordChar U c \<Longrightarrow>
   body U s = ([wordToken U (takeWhile (isWordChar U) (c # r))], dropWhile (isWordChar U) (c # r))"
  by (simp add: body_unfold scanWord_eq isSpecial_def)
     (auto simp add: isWordChar_def ch_def)

lemma body_Other:
  "skipWhitespace s = c # r \<Longrightarrow> \<not> isSpecial c \<Longrightarrow> \<not> isWordChar U c \<Longrightarrow>
   body U s = ([], r)"
  by (simp add: body_unfold scanWord_eq isSpecial_def)
     (auto simp add: isWordChar_def ch_def)

lemma body_cases [case_names Empty Comment EndBracket SelfClosingTag Slash Single StringLiteral Word Other]:
  assumes "skipWhitespace s = [] \<Longrightarrow> body U s = ([], []) \<Longrightarrow> P"
    and "\<And>r. skipWhitespace s = ch CHR ''/'' # ch CHR ''/'' # r \<Longrightarrow>
           body U s = ([], skipToNewline r) \<Longrightarrow> P"
    and "\<And>r. skipWhitespace s = ch CHR ''<'' # ch CHR ''/'' # r \<Longrightarrow>
           body U s = ([\<lparr>value_tok = str ''</'', type_tok = Some EndBracket\<rparr>], r) \<Longrightarrow> P"
    and "\<And>r. skipWhitespace s = ch CHR ''/'' # ch CHR ''>'' # r \<Longrightarrow>
           body U s = ([\<lparr>value_tok = str ''/>'', type_tok = Some SelfClosingTag\<rparr>], r) \<Longrightarrow> P"
    and "\<And>r. skipWhitespace s = ch CHR ''/'' # r \<Longrightarrow> at r 0 \<noteq> Some (ch CHR ''/'') \<Longrightarrow>
           at r 0 \<noteq> Some (ch CHR ''>'') \<Longrightarrow> body U s = ([], r) \<Longrightarrow> P"
    and "\<And>c t r. skipWhitespace s = c # r \<Longrightarrow> (c, t) \<in> set singleTokens \<Longrightarrow>
           c = ch CHR ''<'' \<longrightarrow> at r 0 \<noteq> Some (ch CHR ''/'') \<Longrightarrow>
           body U s = ([\<lparr>value_tok = [c], type_tok = Some t\<rparr>], r) \<Longrightarrow> P"
    and "\<And>q r. skipWhitespace s = q # r \<Longrightarrow> q = ch (CHR 0x22) \<or> q = ch (CHR 0x27) \<Longrightarrow>
           body U s = ([\<lparr>value_tok = takeWhile (\<lambda>c. c \<noteq> q) r, type_tok = Some StringLiteral\<rparr>],
                       shift (dropWhile (\<lambda>c. c \<noteq> q) r)) \<Longrightarrow> P"
    and "\<And>c r. skipWhitespace s = c # r \<Longrightarrow> \<not> isSpecial c \<Longrightarrow> isWordChar U c \<Longrightarrow>
           body U s = ([wordToken U (takeWhile (isWordChar U) (c # r))],
                       dropWhile (isWordChar U) (c # r)) \<Longrightarrow> P"
    and "\<And>c r. skipWhitespace s = c # r \<Longrightarrow> \<not> isSpecial c \<Longrightarrow> \<not> isWordChar U c \<Longrightarrow>
           body U s = ([], r) \<Longrightarrow> P"
  shows P
proof (cases "skipWhitespace s")
  case Nil
  then show ?thesis using assms(1) body_Empty by blast
next
  case (Cons c r)
  consider (slash) "c = ch CHR ''/''" | (single) "\<exists>t. (c, t) \<in> set singleTokens"
    | (quote) "c = ch (CHR 0x22) \<or> c = ch (CHR 0x27)"
    | (rest) "\<not> isSpecial c"
    by (auto simp: isSpecial_def singleTokens_def str_def)
  then show ?thesis
  proof cases
    case slash
    show ?thesis
    proof (cases r)
      case Nil
      with Cons slash show ?thesis
        using assms(5)[of r] body_Slash[of s r U] by (simp add: at_simps)
    next
      case (Cons d r')
      consider "d = ch CHR ''/''" | "d = ch CHR ''>''" | "d \<noteq> ch CHR ''/''" "d \<noteq> ch CHR ''>''"
        by blast
      then show ?thesis
      proof cases
        case 1
        with Cons \<open>skipWhitespace s = c # r\<close> slash show ?thesis
          using assms(2)[of r'] body_Comment[of s r' U] by simp
      next
        case 2
        with Cons \<open>skipWhitespace s = c # r\<close> slash show ?thesis
          using assms(4)[of r'] body_SelfClosingTag[of s r' U] by simp
      next
        case 3
        with Cons \<open>skipWhitespace s = c # r\<close> slash show ?thesis
          using assms(5)[of r] body_Slash[of s r U] by (simp add: at_simps)
      qed
    qed
  next
    case single
    then obtain t where t: "(c, t) \<in> set singleTokens" by blast
    show ?thesis
    proof (cases "c = ch CHR ''<'' \<and> at r 0 = Some (ch CHR ''/'')")
      case True
      then obtain r' where "r = ch CHR ''/'' # r'"
        by (cases r) (auto simp: at_simps)
      with True Cons show ?thesis
        using assms(3)[of r'] body_EndBracket[of s r' U] by simp
    next
      case False
      have "body U s = ([\<lparr>value_tok = [c], type_tok = Some t\<rparr>], r)"
        using t Cons False
        by (auto simp: singleTokens_def body_OpenBracket body_CloseBracket body_OpenParen
              body_CloseParen body_OpenBrace body_CloseBrace body_BinaryOperator body_Equals
              str_def)
      with t Cons False show ?thesis using assms(6)[of c r t] by blast
    qed
  next
    case quote
    with Cons show ?thesis using assms(7)[of c r] body_StringLiteral[of s c r U] by blast
  next
    case rest
    show ?thesis
    proof (cases "isWordChar U c")
      case True
      with rest Cons show ?thesis using assms(8)[of c r] body_Word[of s c r U] by blast
    next
      case False
      with rest Cons show ?thesis using assms(9)[of c r] body_Other[of s c r U] by blast
    qed
  qed
qed

section \<open>Termination of the scan loop\<close>

lemma length_skipWhitespace: "length (skipWhitespace s) \<le> length s"
  by (simp add: skipWhitespace_dropWhile length_dropWhile_le)

lemma length_skipToNewline: "length (skipToNewline s) \<le> length s"
  by (simp add: skipToNewline_dropWhile length_dropWhile_le)

lemma length_shift: "length (shift xs) \<le> length xs"
  by (cases xs) (simp_all add: shift_simps)

lemma length_shift_dropWhile: "length (shift (dropWhile P s)) \<le> length s"
  using length_shift[of "dropWhile P s"] length_dropWhile_le[of P s] by (rule le_trans)

lemma length_dropWhile_word: "isWordChar U c \<Longrightarrow> length (dropWhile (isWordChar U) (c # r)) \<le> length r"
  by (simp add: length_dropWhile_le)

lemma body_rest_length: "length (snd (body U s)) \<le> length (skipWhitespace s) - 1"
proof (cases rule: body_cases[of s U])
  case Empty
  then show ?thesis by simp
next
  case (Comment r)
  then show ?thesis using length_skipToNewline[of r] by simp
next
  case (EndBracket r)
  then show ?thesis by simp
next
  case (SelfClosingTag r)
  then show ?thesis by simp
next
  case (Slash r)
  then show ?thesis by simp
next
  case (Single c t r)
  then show ?thesis by simp
next
  case (StringLiteral q r)
  then show ?thesis using length_shift_dropWhile[of "\<lambda>c. c \<noteq> q" r] by simp
next
  case (Word c r)
  then show ?thesis using length_dropWhile_word[of U c r] by simp
next
  case (Other c r)
  then show ?thesis by simp
qed

lemma body_consumes: "src \<noteq> [] \<Longrightarrow> length (snd (body U src)) < length src"
  using body_rest_length[of U src] length_skipWhitespace[of src]
  by (cases src) auto

termination loop
  by (relation "measure (\<lambda>(U, src, tokens). length src)")
     (use body_consumes in \<open>auto simp: prod_eq_iff\<close>)

declare loop.simps [simp del]

termination endsInOpenString
  by (relation "measure (\<lambda>(U, src). length src)") (use body_consumes in auto)

declare endsInOpenString.simps [simp del]

lemma loop_Nil: "loop U [] tokens = tokens"
  by (subst loop.simps) simp

lemma loop_step:
  "src \<noteq> [] \<Longrightarrow> loop U src tokens = loop U (snd (body U src)) (tokens @ fst (body U src))"
  by (subst loop.simps) (simp add: case_prod_beta)

lemma loop_append: "loop U src tokens = tokens @ loop U src []"
proof (induction "length src" arbitrary: src tokens rule: less_induct)
  case less
  show ?case
  proof (cases "src = []")
    case True
    then show ?thesis by (simp add: loop_Nil)
  next
    case False
    let ?p = "fst (body U src)" and ?r = "snd (body U src)"
    have shorter: "length ?r < length src" using False by (rule body_consumes)
    have "loop U src tokens = loop U ?r (tokens @ ?p)" using False by (rule loop_step)
    also have "\<dots> = (tokens @ ?p) @ loop U ?r []" using shorter by (rule less)
    also have "\<dots> = tokens @ (?p @ loop U ?r [])" by simp
    also have "?p @ loop U ?r [] = loop U ?r ([] @ ?p)"
      using less[OF shorter, of ?p] by simp
    also have "\<dots> = loop U src []" using False by (rule loop_step[symmetric])
    finally show ?thesis .
  qed
qed

lemma tokenize_Nil: "tokenize U [] = []"
  by (simp add: tokenize_def loop_Nil)

lemma tokenize_step:
  "src \<noteq> [] \<Longrightarrow> tokenize U src = fst (body U src) @ tokenize U (snd (body U src))"
  unfolding tokenize_def
  by (subst loop_step, assumption) (simp add: loop_append[of U _ "fst (body U src)"])

section \<open>Properties of all tokens, from properties of one iteration\<close>

lemma tokenize_all:
  assumes step: "\<And>src t. t \<in> set (fst (body U src)) \<Longrightarrow> P t"
    and t: "t \<in> set (tokenize U s)"
  shows "P t"
  using t
proof (induction "length s" arbitrary: s rule: less_induct)
  case less
  show ?case
  proof (cases "s = []")
    case True
    with less.prems show ?thesis by (simp add: tokenize_Nil)
  next
    case False
    then have "t \<in> set (fst (body U s)) \<or> t \<in> set (tokenize U (snd (body U s)))"
      using less.prems by (simp add: tokenize_step)
    then show ?thesis
    proof
      assume "t \<in> set (fst (body U s))"
      then show ?thesis by (rule step)
    next
      assume "t \<in> set (tokenize U (snd (body U s)))"
      with less.hyps[OF body_consumes[OF False]] show ?thesis .
    qed
  qed
qed

text \<open>The tokens one iteration can push, by branch.\<close>

lemma body_tokens:
  assumes "t \<in> set (fst (body U s))"
  shows "t = \<lparr>value_tok = str ''</'', type_tok = Some EndBracket\<rparr>
       \<or> t = \<lparr>value_tok = str ''/>'', type_tok = Some SelfClosingTag\<rparr>
       \<or> (\<exists>c ty. (c, ty) \<in> set singleTokens \<and> t = \<lparr>value_tok = [c], type_tok = Some ty\<rparr>)
       \<or> (\<exists>v. t = \<lparr>value_tok = v, type_tok = Some StringLiteral\<rparr>)
       \<or> (\<exists>w. w \<noteq> [] \<and> t = wordToken U w)"
proof (cases rule: body_cases[of s U])
  case Empty
  with assms show ?thesis by simp
next
  case (Comment r)
  with assms show ?thesis by simp
next
  case (EndBracket r)
  with assms show ?thesis by simp
next
  case (SelfClosingTag r)
  with assms show ?thesis by simp
next
  case (Slash r)
  with assms show ?thesis by simp
next
  case (Single c ty r)
  with assms have "(c, ty) \<in> set singleTokens \<and> t = \<lparr>value_tok = [c], type_tok = Some ty\<rparr>"
    by simp
  then show ?thesis by blast
next
  case (StringLiteral q r)
  with assms show ?thesis by simp
next
  case (Word c r)
  with assms have "takeWhile (isWordChar U) (c # r) \<noteq> [] \<and>
      t = wordToken U (takeWhile (isWordChar U) (c # r))"
    by simp
  then show ?thesis by blast
next
  case (Other c r)
  with assms show ?thesis by simp
qed

section \<open>Evaluation at concrete inputs\<close>

lemmas run =
  tokenize_Nil tokenize_step body_def Let_def at_simps shift_simps ch_def str_def
  isWhitespace_def skipComment_def isDigit_def parseInt_isNaN_def toUpperCase_def
  toLowerCase_def wordToken_def Number_isNaN_def trim_def strDecimalLiteral_def
  strUnsignedDecimalLiteral_def nonDecimalIntegerLiteral_def exponentPartOpt_def
  signedInteger_def decimalDigits_def isBinaryDigit_def isOctalDigit_def isHexDigit_def
  specialIdentifiers_def capitalize_def TokenType_lookup_def TokenType_names_def

lemma skipWhitespace_Cons: "\<not> isWhitespace c \<Longrightarrow> skipWhitespace (c # r) = c # r"
  by simp

lemma tokenize_Word:
  assumes "\<not> isWhitespace c" "\<not> isSpecial c" "isWordChar U c"
  shows "tokenize U (c # r) =
         wordToken U (takeWhile (isWordChar U) (c # r)) # tokenize U (dropWhile (isWordChar U) (c # r))"
proof -
  have "skipWhitespace (c # r) = c # r" using assms(1) by simp
  from body_Word[OF this assms(2,3)] show ?thesis
    by (simp add: tokenize_step del: takeWhile.simps dropWhile.simps)
qed

section \<open>The tokens the scanner can push\<close>

lemma keyword_lookup_table:
  "map (\<lambda>w. (w, TokenType_lookup (capitalize U w))) specialIdentifiers
   = zip specialIdentifiers (map Some keywordTypes)"
  by (simp add: specialIdentifiers_def keywordTypes_def capitalize_def TokenType_lookup_def
        TokenType_names_def toUpperCase_def str_def ch_def)

lemma keyword_lookup:
  assumes "w \<in> set specialIdentifiers"
  shows "(w, TokenType_lookup (capitalize U w)) \<in> set (zip specialIdentifiers (map Some keywordTypes))"
proof -
  have "(w, TokenType_lookup (capitalize U w))
        \<in> set (map (\<lambda>w. (w, TokenType_lookup (capitalize U w))) specialIdentifiers)"
    using assms by (simp add: image_iff)
  then show ?thesis by (simp only: keyword_lookup_table)
qed

lemma keyword_lookup_Some:
  assumes "w \<in> set specialIdentifiers"
  obtains ty where "TokenType_lookup (capitalize U w) = Some ty"
    and "(w, ty) \<in> set (zip specialIdentifiers keywordTypes)"
  using keyword_lookup[OF assms, of U] by (auto simp: zip_map2)

lemma wordToken_cases [case_names Number Keyword Identifier]:
  obtains "\<not> Number_isNaN w" "wordToken U w = \<lparr>value_tok = w, type_tok = Some Number\<rparr>"
  | "Number_isNaN w" "w \<in> set specialIdentifiers"
    "wordToken U w = \<lparr>value_tok = w, type_tok = TokenType_lookup (capitalize U w)\<rparr>"
  | "Number_isNaN w" "w \<notin> set specialIdentifiers"
    "wordToken U w = \<lparr>value_tok = w, type_tok = Some Identifier\<rparr>"
  unfolding wordToken_def by (cases "Number_isNaN w"; cases "w \<in> set specialIdentifiers") auto

lemma wordToken_value: "value_tok (wordToken U w) = w"
  by (simp add: wordToken_def)

lemma wordToken_emitted: "emitted (wordToken U w)"
proof (cases rule: wordToken_cases[of w U])
  case Number
  then show ?thesis by (simp add: emitted.Number)
next
  case Keyword
  from keyword_lookup_Some[OF Keyword(2), of U] obtain ty
    where "TokenType_lookup (capitalize U w) = Some ty"
      and "(w, ty) \<in> set (zip specialIdentifiers keywordTypes)" by blast
  with Keyword show ?thesis by (simp add: emitted.Keyword)
next
  case Identifier
  then show ?thesis by (simp add: emitted.Identifier)
qed

lemma tokenize_emitted:
  assumes "t \<in> set (tokenize U s)"
  shows "emitted t"
proof (rule tokenize_all[of U emitted, OF _ assms])
  fix src t
  assume "t \<in> set (fst (body U src))"
  from body_tokens[OF this] show "emitted t"
    by (elim disjE exE conjE)
       (simp_all add: emitted.EndBracket emitted.SelfClosingTag emitted.Single
          emitted.StringLiteral wordToken_emitted)
qed

section \<open>Words of digits\<close>

lemma digit_not_whitespace: "isDigit c \<Longrightarrow> \<not> isWhitespace c"
  by (auto simp: isDigit_def isWhitespace_def ch_def word_le_nat_alt)

lemma digit_not_special: "isDigit c \<Longrightarrow> \<not> isSpecial c"
  by (auto simp: isDigit_def isSpecial_def ch_def str_def word_le_nat_alt)

lemma digit_wordChar: "isDigit c \<Longrightarrow> isWordChar U c"
  by (simp add: isWordChar_def parseInt_isNaN_def)

lemma dropWhile_hd: "xs \<noteq> [] \<Longrightarrow> \<not> P (hd xs) \<Longrightarrow> dropWhile P xs = xs"
  by (cases xs) simp_all

lemma trim_id:
  assumes "s \<noteq> []" "\<not> isWhitespace (hd s)" "\<not> isWhitespace (last s)"
  shows "trim s = s"
proof -
  have "dropWhile isWhitespace s = s" using assms(1,2) by (rule dropWhile_hd)
  moreover have "dropWhile isWhitespace (rev s) = rev s"
    using assms(1,3) by (intro dropWhile_hd) (simp_all add: hd_rev)
  ultimately show ?thesis by (simp add: trim_def)
qed

lemma all_digits_not_NaN:
  assumes "ds \<noteq> []" "list_all isDigit ds"
  shows "\<not> Number_isNaN ds"
proof -
  from assms obtain d r where ds: "ds = d # r" and d: "isDigit d"
    by (cases ds) auto
  have "isDigit (hd ds)" "isDigit (last ds)"
    using assms by (simp_all add: list_all_iff)
  then have t: "trim ds = ds"
    using assms(1) digit_not_whitespace by (intro trim_id) auto
  have sign: "d \<noteq> ch CHR ''+''" "d \<noteq> ch CHR ''-''"
    using d by (auto simp: isDigit_def ch_def)
  have tw: "takeWhile isDigit ds = ds" "dropWhile isDigit ds = []"
    using assms(2) by (simp_all add: list_all_iff)
  have "strUnsignedDecimalLiteral ds"
    unfolding strUnsignedDecimalLiteral_def tw Let_def
    using assms(1) by (simp add: at_simps exponentPartOpt_def)
  then have "strDecimalLiteral ds"
    using sign by (simp add: strDecimalLiteral_def ds)
  then show ?thesis by (simp add: Number_isNaN_def t)
qed

section \<open>What one iteration consumes\<close>

lemma lexemes_simps:
  "lexemes [] = 0" "lexemes (t # ts) = length (value_tok t) + lexemes ts"
  "lexemes (ts @ us) = lexemes ts + lexemes us"
  by (simp_all add: lexemes_def)

lemma length_take_drop_While: "length (takeWhile P xs) + length (dropWhile P xs) = length xs"
  by (induction xs) simp_all

lemma body_budget:
  "length (fst (body U s)) + length (snd (body U s)) \<le> length s
   \<and> lexemes (fst (body U s)) + length (snd (body U s)) \<le> length s"
proof (cases rule: body_cases[of s U])
  case Empty
  then show ?thesis by (simp add: lexemes_simps)
next
  case (Comment r)
  then show ?thesis
    using length_skipToNewline[of r] length_skipWhitespace[of s] by (simp add: lexemes_simps)
next
  case (EndBracket r)
  then show ?thesis using length_skipWhitespace[of s] by (simp add: lexemes_simps str_def)
next
  case (SelfClosingTag r)
  then show ?thesis using length_skipWhitespace[of s] by (simp add: lexemes_simps str_def)
next
  case (Slash r)
  then show ?thesis using length_skipWhitespace[of s] by (simp add: lexemes_simps)
next
  case (Single c t r)
  then show ?thesis using length_skipWhitespace[of s] by (simp add: lexemes_simps)
next
  case (StringLiteral q r)
  then show ?thesis
    using length_skipWhitespace[of s] length_take_drop_While[of "\<lambda>c. c \<noteq> q" r]
      length_shift[of "dropWhile (\<lambda>c. c \<noteq> q) r"]
    by (simp add: lexemes_simps)
next
  case (Word c r)
  have "takeWhile (isWordChar U) (c # r) = c # takeWhile (isWordChar U) r"
    "dropWhile (isWordChar U) (c # r) = dropWhile (isWordChar U) r"
    using Word(3) by simp_all
  with Word show ?thesis
    using length_skipWhitespace[of s] length_take_drop_While[of "isWordChar U" r]
    by (simp add: lexemes_simps wordToken_value)
next
  case (Other c r)
  then show ?thesis using length_skipWhitespace[of s] by (simp add: lexemes_simps)
qed

lemma tokenize_budget:
  "length (tokenize U s) \<le> length s \<and> lexemes (tokenize U s) \<le> length s"
proof (induction "length s" arbitrary: s rule: less_induct)
  case less
  show ?case
  proof (cases "s = []")
    case True
    then show ?thesis by (simp add: tokenize_Nil lexemes_simps)
  next
    case False
    from less[OF body_consumes[OF False, of U]] body_budget[of U s]
    show ?thesis by (simp add: tokenize_step[OF False] lexemes_simps)
  qed
qed

section \<open>White space around the input\<close>

lemma endsInOpenString_Nil: "endsInOpenString U [] = False"
  by (subst endsInOpenString.simps) simp

lemma endsInOpenString_step:
  "src \<noteq> [] \<Longrightarrow> endsInOpenString U src =
     (openQuote (skipWhitespace src) \<or> endsInOpenString U (snd (body U src)))"
  by (subst endsInOpenString.simps) simp

lemma body_Single:
  assumes "skipWhitespace s = c # r" "(c, t) \<in> set singleTokens"
    "c = ch CHR ''<'' \<longrightarrow> at r 0 \<noteq> Some (ch CHR ''/'')"
  shows "body U s = ([\<lparr>value_tok = [c], type_tok = Some t\<rparr>], r)"
  using assms
  by (auto simp: singleTokens_def body_OpenBracket body_CloseBracket body_OpenParen
        body_CloseParen body_OpenBrace body_CloseBrace body_BinaryOperator body_Equals
        str_def)

lemma body_skip: "skipWhitespace a = skipWhitespace b \<Longrightarrow> body U a = body U b"
  by (simp add: body_def)

lemma tokenize_whitespace:
  assumes "list_all isWhitespace w"
  shows "tokenize U w = []"
proof (cases "w = []")
  case True
  then show ?thesis by (simp add: tokenize_Nil)
next
  case False
  have "skipWhitespace w = []"
    using assms by (simp add: skipWhitespace_dropWhile list_all_iff)
  then have "body U w = ([], [])" by (rule body_Empty)
  then show ?thesis using False by (simp add: tokenize_step tokenize_Nil)
qed

lemma tokenize_leading:
  assumes "list_all isWhitespace w"
  shows "tokenize U (w @ s) = tokenize U s"
proof (cases "s = []")
  case True
  then show ?thesis using assms by (simp add: tokenize_whitespace tokenize_Nil)
next
  case False
  have "skipWhitespace (w @ s) = skipWhitespace s"
    using assms by (simp add: skipWhitespace_dropWhile list_all_iff)
  then have "body U (w @ s) = body U s" by (rule body_skip)
  then show ?thesis using False by (simp add: tokenize_step)
qed

lemma takeWhile_none: "\<forall>y\<in>set ys. \<not> P y \<Longrightarrow> takeWhile P ys = []"
  by (cases ys) simp_all

lemma dropWhile_none: "\<forall>y\<in>set ys. \<not> P y \<Longrightarrow> dropWhile P ys = ys"
  by (cases ys) simp_all

lemma takeWhile_append_none:
  "\<forall>y\<in>set ys. \<not> P y \<Longrightarrow> takeWhile P (xs @ ys) = takeWhile P xs"
  by (induction xs) (simp_all add: takeWhile_none)

lemma dropWhile_append_none:
  "\<forall>y\<in>set ys. \<not> P y \<Longrightarrow> dropWhile P (xs @ ys) = dropWhile P xs @ ys"
  by (induction xs) (simp_all add: dropWhile_none)

lemma at_append_other:
  assumes "list_all isWhitespace w" "\<not> isWhitespace c" "at r 0 \<noteq> Some c"
  shows "at (r @ w) 0 \<noteq> Some c"
proof (cases r)
  case Nil
  with assms(1,2) show ?thesis by (cases w) (auto simp: at_simps)
next
  case (Cons a list)
  with assms(3) show ?thesis by (simp add: at_simps)
qed

lemma skipWhitespace_append:
  assumes "skipWhitespace s \<noteq> []"
  shows "skipWhitespace (s @ w) = skipWhitespace s @ w"
proof -
  let ?x = "hd (dropWhile isWhitespace s)"
  from assms have ne: "dropWhile isWhitespace s \<noteq> []" by (simp add: skipWhitespace_dropWhile)
  then have "\<not> isWhitespace ?x" by (rule hd_dropWhile)
  moreover have "?x \<in> set s" using ne set_dropWhileD[of ?x isWhitespace s] by simp
  ultimately show ?thesis
    by (simp add: skipWhitespace_dropWhile dropWhile_append1)
qed

lemma slash_gt_not_whitespace:
  "\<not> isWhitespace (ch CHR ''/'')" "\<not> isWhitespace (ch CHR ''>'')"
  by (simp_all add: isWhitespace_def ch_def)

lemma whitespace_not_wordChar:
  "isWhitespace c \<Longrightarrow> \<not> isAlpha U (Some c) \<Longrightarrow> \<not> isWordChar U c"
  using digit_not_whitespace[of c] by (auto simp: isWordChar_def parseInt_isNaN_def)

lemma body_append:
  assumes w: "list_all (\<lambda>c. isWhitespace c \<and> \<not> isAlpha U (Some c)) w"
    and ne: "skipWhitespace s \<noteq> []"
    and closed: "\<not> openQuote (skipWhitespace s)"
  shows "fst (body U (s @ w)) = fst (body U s)
       \<and> (snd (body U (s @ w)) = snd (body U s) @ w
          \<or> snd (body U s) = [] \<and> list_all isWhitespace (snd (body U (s @ w))))"
proof -
  have ws: "list_all isWhitespace w" using w by (simp add: list_all_iff)
  have nw: "\<forall>y\<in>set w. \<not> isWordChar U y"
    using w whitespace_not_wordChar by (auto simp: list_all_iff)
  note app = skipWhitespace_append[OF ne, of w]
  show ?thesis
  proof (cases rule: body_cases[of s U])
    case Empty
    with ne show ?thesis by simp
  next
    case (Comment r)
    have b: "body U (s @ w) = ([], skipToNewline (r @ w))"
      using app Comment(1) by (intro body_Comment) simp
    show ?thesis
    proof (cases "0xA \<in> set r")
      case True
      then have "skipToNewline (r @ w) = skipToNewline r @ w"
        by (simp add: skipToNewline_dropWhile dropWhile_append1)
      with b Comment show ?thesis by simp
    next
      case False
      then have all: "\<And>x. x \<in> set r \<Longrightarrow> x \<noteq> 0xA" by blast
      have "skipToNewline (r @ w) = skipToNewline w" "skipToNewline r = []"
        unfolding skipToNewline_dropWhile
        using all by (simp_all add: dropWhile_append2[of r "\<lambda>c. c \<noteq> 0xA" w])
      moreover have "list_all isWhitespace (skipToNewline w)"
        using ws set_dropWhileD[of _ "\<lambda>c. c \<noteq> 0xA" w]
        by (auto simp: skipToNewline_dropWhile list_all_iff)
      ultimately show ?thesis using b Comment by simp
    qed
  next
    case (EndBracket r)
    have "body U (s @ w) = ([\<lparr>value_tok = str ''</'', type_tok = Some EndBracket\<rparr>], r @ w)"
      using app EndBracket(1) by (intro body_EndBracket) simp
    with EndBracket show ?thesis by simp
  next
    case (SelfClosingTag r)
    have "body U (s @ w) = ([\<lparr>value_tok = str ''/>'', type_tok = Some SelfClosingTag\<rparr>], r @ w)"
      using app SelfClosingTag(1) by (intro body_SelfClosingTag) simp
    with SelfClosingTag show ?thesis by simp
  next
    case (Slash r)
    have "body U (s @ w) = ([], r @ w)"
      using app Slash(1) at_append_other[OF ws _ Slash(2)] at_append_other[OF ws _ Slash(3)]
      by (intro body_Slash) (simp_all add: slash_gt_not_whitespace)
    with Slash show ?thesis by simp
  next
    case (Single c t r)
    have "c = ch CHR ''<'' \<longrightarrow> at (r @ w) 0 \<noteq> Some (ch CHR ''/'')"
      using Single(3) at_append_other[OF ws slash_gt_not_whitespace(1), of r] by blast
    then have "body U (s @ w) = ([\<lparr>value_tok = [c], type_tok = Some t\<rparr>], r @ w)"
      using app Single(1,2) by (intro body_Single) simp_all
    with Single show ?thesis by simp
  next
    case (StringLiteral q r)
    from closed StringLiteral(1,2) have q: "q \<in> set r" by (simp add: openQuote_def)
    then have tw: "takeWhile (\<lambda>c. c \<noteq> q) (r @ w) = takeWhile (\<lambda>c. c \<noteq> q) r"
      and dw: "dropWhile (\<lambda>c. c \<noteq> q) (r @ w) = dropWhile (\<lambda>c. c \<noteq> q) r @ w"
      by (simp_all add: takeWhile_append1 dropWhile_append1)
    have "dropWhile (\<lambda>c. c \<noteq> q) r \<noteq> []" using q by (simp add: dropWhile_eq_Nil_conv)
    then have sh: "shift (dropWhile (\<lambda>c. c \<noteq> q) r @ w) = shift (dropWhile (\<lambda>c. c \<noteq> q) r) @ w"
      by (cases "dropWhile (\<lambda>c. c \<noteq> q) r") (simp_all add: shift_simps)
    have "skipWhitespace (s @ w) = q # (r @ w)" using app StringLiteral(1) by simp
    from body_StringLiteral[OF this StringLiteral(2), of U] StringLiteral(3)
    show ?thesis by (simp add: tw dw sh)
  next
    case (Word c r)
    have "skipWhitespace (s @ w) = c # (r @ w)" using app Word(1) by simp
    from body_Word[OF this Word(2,3)]
    have "body U (s @ w) = ([wordToken U (takeWhile (isWordChar U) ((c # r) @ w))],
                            dropWhile (isWordChar U) ((c # r) @ w))"
      by simp
    then show ?thesis
      using Word(4) by (simp only: takeWhile_append_none[OF nw] dropWhile_append_none[OF nw]) simp
  next
    case (Other c r)
    have "body U (s @ w) = ([], r @ w)"
      using app Other(1,2,3) by (intro body_Other) simp_all
    with Other show ?thesis by simp
  qed
qed

lemma tokenize_trailing:
  assumes w: "list_all (\<lambda>c. isWhitespace c \<and> \<not> isAlpha U (Some c)) w"
  shows "\<not> endsInOpenString U s \<Longrightarrow> tokenize U (s @ w) = tokenize U s"
proof (induction "length s" arbitrary: s rule: less_induct)
  case less
  have ws: "list_all isWhitespace w" using w by (simp add: list_all_iff)
  show ?case
  proof (cases "s = []")
    case True
    then show ?thesis using ws by (simp add: tokenize_whitespace tokenize_Nil)
  next
    case False
    show ?thesis
    proof (cases "skipWhitespace s = []")
      case True
      then have "list_all isWhitespace s"
        by (simp add: skipWhitespace_dropWhile list_all_iff)
      with ws have "list_all isWhitespace (s @ w)" by simp
      then have "tokenize U (s @ w) = []" by (rule tokenize_whitespace)
      moreover have "tokenize U s = []"
        using \<open>list_all isWhitespace s\<close> by (rule tokenize_whitespace)
      ultimately show ?thesis by simp
    next
      case ne: False
      from less.prems False have closed: "\<not> openQuote (skipWhitespace s)"
        and rest: "\<not> endsInOpenString U (snd (body U s))"
        by (simp_all add: endsInOpenString_step)
      have shorter: "length (snd (body U s)) < length s" using False by (rule body_consumes)
      from body_append[OF w ne closed]
      have f: "fst (body U (s @ w)) = fst (body U s)"
        and r: "snd (body U (s @ w)) = snd (body U s) @ w
               \<or> snd (body U s) = [] \<and> list_all isWhitespace (snd (body U (s @ w)))"
        by blast+
      have "tokenize U (snd (body U (s @ w))) = tokenize U (snd (body U s))"
        using r
      proof
        assume "snd (body U (s @ w)) = snd (body U s) @ w"
        then show ?thesis using less.hyps[OF shorter rest] by simp
      next
        assume "snd (body U s) = [] \<and> list_all isWhitespace (snd (body U (s @ w)))"
        then show ?thesis by (simp add: tokenize_whitespace tokenize_Nil)
      qed
      with f False show ?thesis by (simp add: tokenize_step)
    qed
  qed
qed

section \<open>Claims about single inputs\<close>

text \<open>
  C2. The specification has \<open>tokenize("4/2")\<close> return \<open>Number("4")\<close>, \<open>BinaryOperator("/")\<close>,
  \<open>Number("2")\<close>. The code returns the two \<open>Number\<close> tokens only: the branch
  \<open>src[0] === "/"\<close> comes before the branch \<open>"+-*/".includes(src[0])\<close> and consumes the
  slash without pushing a token, so the \<open>/\<close> of the operator list is never reached.
\<close>

theorem division_slash_dropped:
  "tokenize U (str ''4/2'') =
     [\<lparr>value_tok = str ''4'', type_tok = Some Number\<rparr>,
      \<lparr>value_tok = str ''2'', type_tok = Some Number\<rparr>]"
  by (simp add: run)

text \<open>
  C6. \<open>tokenize("/>")\<close> is one \<open>SelfClosingTag\<close> token with lexeme \<open>/>\<close>;
  \<open>tokenize("/ >")\<close> is one \<open>CloseBracket\<close> token with lexeme \<open>>\<close>; and a slash that
  is followed neither by \<open>>\<close> nor by \<open>/\<close> is consumed without a token: the rest of the
  input is tokenized as if the slash were not there.
\<close>

theorem lone_slash_discarded:
  "tokenize U (str ''/>'') = [\<lparr>value_tok = str ''/>'', type_tok = Some SelfClosingTag\<rparr>]
   \<and> tokenize U (str ''/ >'') = [\<lparr>value_tok = str ''>'', type_tok = Some CloseBracket\<rparr>]
   \<and> (at r 0 \<noteq> Some (ch CHR ''/'') \<and> at r 0 \<noteq> Some (ch CHR ''>'')
        \<longrightarrow> tokenize U (ch CHR ''/'' # r) = tokenize U r)"
proof (intro conjI impI)
  show "tokenize U (str ''/>'') = [\<lparr>value_tok = str ''/>'', type_tok = Some SelfClosingTag\<rparr>]"
    by (simp add: run)
  show "tokenize U (str ''/ >'') = [\<lparr>value_tok = str ''>'', type_tok = Some CloseBracket\<rparr>]"
    by (simp add: run)
next
  assume a: "at r 0 \<noteq> Some (ch CHR ''/'') \<and> at r 0 \<noteq> Some (ch CHR ''>'')"
  have "skipWhitespace (ch CHR ''/'' # r) = ch CHR ''/'' # r"
    by (simp add: isWhitespace_def ch_def)
  from body_Slash[OF this, of U] a have "body U (ch CHR ''/'' # r) = ([], r)" by blast
  then show "tokenize U (ch CHR ''/'' # r) = tokenize U r"
    by (simp add: tokenize_step)
qed

theorem lone_slash_discarded_witness:
  "at (str '' >'') 0 \<noteq> Some (ch CHR ''/'') \<and> at (str '' >'') 0 \<noteq> Some (ch CHR ''>'')
   \<and> tokenize ascii_only (ch CHR ''/'' # str '' >'') = tokenize ascii_only (str '' >'')
   \<and> tokenize ascii_only (str '' >'') = [\<lparr>value_tok = str ''>'', type_tok = Some CloseBracket\<rparr>]"
  using lone_slash_discarded[of ascii_only "str '' >''"]
  by (simp add: run)

text \<open>
  C7. \<open>tokenize("let")\<close> is one token of type \<open>Let\<close>, \<open>tokenize("letx")\<close> is one
  \<open>Identifier\<close> token with lexeme \<open>letx\<close>, and in general the word branch classifies the
  maximal run of word characters at the cursor as a whole (\<open>wordToken\<close> is applied to
  the whole run, never to a prefix of it).
\<close>

theorem keyword_whole_word:
  "tokenize U (str ''let'') = [\<lparr>value_tok = str ''let'', type_tok = Some Let\<rparr>]
   \<and> tokenize U (str ''letx'') = [\<lparr>value_tok = str ''letx'', type_tok = Some Identifier\<rparr>]
   \<and> (\<not> isWhitespace c \<and> \<not> isSpecial c \<and> isWordChar U c \<longrightarrow>
        tokenize U (c # r) =
          wordToken U (takeWhile (isWordChar U) (c # r))
          # tokenize U (dropWhile (isWordChar U) (c # r)))"
proof (intro conjI impI)
  show "tokenize U (str ''let'') = [\<lparr>value_tok = str ''let'', type_tok = Some Let\<rparr>]"
    by (simp add: run)
  show "tokenize U (str ''letx'') = [\<lparr>value_tok = str ''letx'', type_tok = Some Identifier\<rparr>]"
    by (simp add: run)
next
  assume "\<not> isWhitespace c \<and> \<not> isSpecial c \<and> isWordChar U c"
  then show "tokenize U (c # r) =
          wordToken U (takeWhile (isWordChar U) (c # r))
          # tokenize U (dropWhile (isWordChar U) (c # r))"
    using tokenize_Word by blast
qed

theorem keyword_whole_word_witness:
  "\<not> isWhitespace (ch CHR ''l'') \<and> \<not> isSpecial (ch CHR ''l'')
   \<and> isWordChar ascii_only (ch CHR ''l'')
   \<and> takeWhile (isWordChar ascii_only) (ch CHR ''l'' # str ''etx <'') = str ''letx''
   \<and> tokenize ascii_only (ch CHR ''l'' # str ''etx <'') =
       [\<lparr>value_tok = str ''letx'', type_tok = Some Identifier\<rparr>,
        \<lparr>value_tok = str ''<'', type_tok = Some OpenBracket\<rparr>]"
  using keyword_whole_word[of ascii_only "ch CHR ''l''" "str ''etx <''"]
  by (simp add: run isSpecial_def isWordChar_def)

section \<open>Claims about all inputs\<close>

text \<open>
  C1, as amended. No token of any input has type \<open>Comment\<close>, \<open>StartTemplateString\<close>,
  \<open>EndTemplateString\<close>, \<open>StartInterpolation\<close> or \<open>EndInterpolation\<close>. A token of
  type \<open>Name\<close> is emitted, and only for the word \<open>name\<close>, which is one of the special
  identifiers: \<open>tokenize("name")\<close> is one token of type \<open>Name\<close>.
\<close>

theorem unused_token_types:
  "(\<forall>t \<in> set (tokenize U s).
      type_tok t \<notin> {Some Comment, Some StartTemplateString, Some EndTemplateString,
                     Some StartInterpolation, Some EndInterpolation}
      \<and> (type_tok t = Some Name \<longrightarrow> value_tok t = str ''name''))
   \<and> tokenize U (str ''name'') = [\<lparr>value_tok = str ''name'', type_tok = Some Name\<rparr>]"
proof (intro conjI ballI)
  fix t assume "t \<in> set (tokenize U s)"
  then have e: "emitted t" by (rule tokenize_emitted)
  from e show "type_tok t \<notin> {Some Comment, Some StartTemplateString, Some EndTemplateString,
                     Some StartInterpolation, Some EndInterpolation}"
    by cases (auto simp: singleTokens_def specialIdentifiers_def keywordTypes_def)
  from e show "type_tok t = Some Name \<longrightarrow> value_tok t = str ''name''"
    by cases (auto simp: singleTokens_def specialIdentifiers_def keywordTypes_def)
next
  show "tokenize U (str ''name'') = [\<lparr>value_tok = str ''name'', type_tok = Some Name\<rparr>]"
    by (simp add: run)
qed

text \<open>
  C1 fails as the specification states it: the input \<open>name\<close> yields a token of type \<open>Name\<close>.
\<close>

theorem name_token_emitted:
  "tokenize ascii_only (str ''name'') = [\<lparr>value_tok = str ''name'', type_tok = Some Name\<rparr>]"
  by (simp add: run)

theorem unused_token_types_witness:
  "\<lparr>value_tok = str ''name'', type_tok = Some Name\<rparr> \<in> set (tokenize ascii_only (str ''<name>''))
   \<and> type_tok \<lparr>value_tok = str ''name'', type_tok = Some Name\<rparr>
       \<notin> {Some Comment, Some StartTemplateString, Some EndTemplateString,
           Some StartInterpolation, Some EndInterpolation}
   \<and> value_tok \<lparr>value_tok = str ''name'', type_tok = Some Name\<rparr> = str ''name''"
  using unused_token_types[of ascii_only "str ''<name>''"]
  by (simp add: run)

text \<open>
  C10. For every word of \<open>specialIdentifiers\<close> the capitalized word is the name of a
  declared enumerant, so the lookup in the enum object is defined, and every token of
  every input carries a defined \<open>TokenType\<close>.
\<close>

theorem keyword_lookup_defined:
  "(\<forall>w \<in> set specialIdentifiers. TokenType_lookup (capitalize U w) \<noteq> None)
   \<and> (\<forall>t \<in> set (tokenize U s). type_tok t \<noteq> None)"
proof (intro conjI ballI)
  fix w assume "w \<in> set specialIdentifiers"
  from keyword_lookup_Some[OF this, of U] show "TokenType_lookup (capitalize U w) \<noteq> None"
    by auto
next
  fix t assume "t \<in> set (tokenize U s)"
  then have "emitted t" by (rule tokenize_emitted)
  then show "type_tok t \<noteq> None" by cases simp_all
qed

theorem keyword_lookup_defined_witness:
  "str ''elseIf'' \<in> set specialIdentifiers
   \<and> TokenType_lookup (capitalize ascii_only (str ''elseIf'')) = Some ElseIf
   \<and> \<lparr>value_tok = str ''elseIf'', type_tok = Some ElseIf\<rparr>
       \<in> set (tokenize ascii_only (str ''<elseIf>''))
   \<and> type_tok \<lparr>value_tok = str ''elseIf'', type_tok = Some ElseIf\<rparr> \<noteq> None"
  using keyword_lookup_defined[of ascii_only "str ''<elseIf>''"]
  by (simp add: run)

text \<open>
  C3, as amended. A token of type \<open>Number\<close> always has a lexeme that \<open>Number()\<close> of the
  runtime accepts (not \<open>NaN\<close>). The word branch classifies a word as \<open>Number\<close> exactly
  when \<open>Number(word)\<close> is not \<open>NaN\<close>, whether or not the word contains alpha
  characters; any other word is never \<open>Number\<close>, and is \<open>Identifier\<close> unless it is a
  special identifier. \<open>tokenize("42abc")\<close> is one \<open>Identifier\<close> token with lexeme
  \<open>42abc\<close>.
\<close>

theorem number_classification:
  "(\<forall>t \<in> set (tokenize U s). type_tok t = Some Number \<longrightarrow> \<not> Number_isNaN (value_tok t))
   \<and> (\<not> Number_isNaN w \<longrightarrow> wordToken U w = \<lparr>value_tok = w, type_tok = Some Number\<rparr>)
   \<and> (Number_isNaN w \<longrightarrow> type_tok (wordToken U w) \<noteq> Some Number
        \<and> (w \<notin> set specialIdentifiers \<longrightarrow>
             wordToken U w = \<lparr>value_tok = w, type_tok = Some Identifier\<rparr>))
   \<and> tokenize U (str ''42abc'') = [\<lparr>value_tok = str ''42abc'', type_tok = Some Identifier\<rparr>]"
proof (intro conjI ballI impI)
  fix t assume "t \<in> set (tokenize U s)" and n: "type_tok t = Some Number"
  then have "emitted t" by (simp add: tokenize_emitted)
  then show "\<not> Number_isNaN (value_tok t)" using n
    by cases (auto simp: singleTokens_def specialIdentifiers_def keywordTypes_def)
next
  assume "\<not> Number_isNaN w"
  then show "wordToken U w = \<lparr>value_tok = w, type_tok = Some Number\<rparr>"
    by (simp add: wordToken_def)
next
  assume n: "Number_isNaN w"
  have "emitted (wordToken U w)" by (rule wordToken_emitted)
  then show "type_tok (wordToken U w) \<noteq> Some Number"
  proof cases
    case (Number w')
    then have "w' = w" using wordToken_value[of U w] by simp
    with Number n show ?thesis by simp
  qed (auto simp: singleTokens_def specialIdentifiers_def keywordTypes_def)
next
  assume "Number_isNaN w" "w \<notin> set specialIdentifiers"
  then show "wordToken U w = \<lparr>value_tok = w, type_tok = Some Identifier\<rparr>"
    by (simp add: wordToken_def)
next
  show "tokenize U (str ''42abc'') = [\<lparr>value_tok = str ''42abc'', type_tok = Some Identifier\<rparr>]"
    by (simp add: run)
qed

text \<open>
  C3 fails as the specification states it: the word \<open>1e5\<close> contains the alpha character \<open>e\<close> and is
  classified as \<open>Number\<close>.
\<close>

theorem alpha_word_classified_Number:
  "isAlpha ascii_only (Some (ch CHR ''e''))
   \<and> tokenize ascii_only (str ''1e5'') = [\<lparr>value_tok = str ''1e5'', type_tok = Some Number\<rparr>]"
  by (simp add: run)

theorem number_classification_witness:
  "\<lparr>value_tok = str ''0x1F'', type_tok = Some Number\<rparr> \<in> set (tokenize ascii_only (str ''0x1F a'')) 
   \<and> \<not> Number_isNaN (str ''0x1F'')
   \<and> wordToken ascii_only (str ''0x1F'') = \<lparr>value_tok = str ''0x1F'', type_tok = Some Number\<rparr>
   \<and> Number_isNaN (str ''4x'') \<and> str ''4x'' \<notin> set specialIdentifiers
   \<and> wordToken ascii_only (str ''4x'') = \<lparr>value_tok = str ''4x'', type_tok = Some Identifier\<rparr>"
  using number_classification[of ascii_only "str ''0x1F a''" "str ''0x1F''"]
    number_classification[of ascii_only "str ''0x1F a''" "str ''4x''"]
  by (simp add: run)

text \<open>
  C4, as amended. For an input that is a minus sign immediately followed by decimal
  digits, the minus sign is emitted as a separate \<open>BinaryOperator\<close> token with lexeme
  \<open>-\<close>, followed by one \<open>Number\<close> token holding the digits: the operator branch comes
  before the word branch. A minus sign is absorbed into a word only after the first
  character of the word: \<open>tokenize("a-5")\<close> is one \<open>Identifier\<close> token.
\<close>

theorem leading_minus_is_operator:
  "(ds \<noteq> [] \<and> list_all isDigit ds \<longrightarrow>
      tokenize U (ch CHR ''-'' # ds) =
        [\<lparr>value_tok = str ''-'', type_tok = Some BinaryOperator\<rparr>,
         \<lparr>value_tok = ds, type_tok = Some Number\<rparr>])
   \<and> tokenize U (str ''a-5'') = [\<lparr>value_tok = str ''a-5'', type_tok = Some Identifier\<rparr>]"
proof (intro conjI impI)
  assume a: "ds \<noteq> [] \<and> list_all isDigit ds"
  then obtain d r where ds: "ds = d # r" and d: "isDigit d"
    by (cases ds) auto
  have all: "\<forall>x\<in>set ds. isWordChar U x"
    using a digit_wordChar by (auto simp: list_all_iff)
  have "skipWhitespace (ch CHR ''-'' # ds) = ch CHR ''-'' # ds"
    by (simp add: isWhitespace_def ch_def)
  then have "body U (ch CHR ''-'' # ds)
      = ([\<lparr>value_tok = [ch CHR ''-''], type_tok = Some BinaryOperator\<rparr>], ds)"
    by (rule body_BinaryOperator) simp
  then have 1: "tokenize U (ch CHR ''-'' # ds)
      = \<lparr>value_tok = str ''-'', type_tok = Some BinaryOperator\<rparr> # tokenize U ds"
    by (simp add: tokenize_step str_def)
  have "tokenize U (d # r) = wordToken U (takeWhile (isWordChar U) (d # r))
          # tokenize U (dropWhile (isWordChar U) (d # r))"
    using d by (intro tokenize_Word digit_not_whitespace digit_not_special digit_wordChar)
  moreover have "takeWhile (isWordChar U) ds = ds" "dropWhile (isWordChar U) ds = []"
    using all by simp_all
  ultimately have "tokenize U ds = [wordToken U ds]"
    by (simp add: ds[symmetric] tokenize_Nil)
  moreover have "wordToken U ds = \<lparr>value_tok = ds, type_tok = Some Number\<rparr>"
    using all_digits_not_NaN a by (simp add: wordToken_def)
  ultimately show "tokenize U (ch CHR ''-'' # ds) =
        [\<lparr>value_tok = str ''-'', type_tok = Some BinaryOperator\<rparr>,
         \<lparr>value_tok = ds, type_tok = Some Number\<rparr>]"
    using 1 by simp
next
  show "tokenize U (str ''a-5'') = [\<lparr>value_tok = str ''a-5'', type_tok = Some Identifier\<rparr>]"
    by (simp add: run)
qed

theorem leading_minus_is_operator_witness:
  "str ''5'' \<noteq> [] \<and> list_all isDigit (str ''5'')
   \<and> tokenize ascii_only (ch CHR ''-'' # str ''5'') =
        [\<lparr>value_tok = str ''-'', type_tok = Some BinaryOperator\<rparr>,
         \<lparr>value_tok = str ''5'', type_tok = Some Number\<rparr>]"
  using leading_minus_is_operator[of "str ''5''" ascii_only]
  by (simp add: str_def isDigit_def ch_def)

text \<open>
  C4 fails as the specification states it: \<open>tokenize("-5")\<close> is a \<open>BinaryOperator\<close> token followed by a
  \<open>Number\<close> token, not one word token.
\<close>

theorem minus_digits_two_tokens:
  "tokenize ascii_only (str ''-5'') =
     [\<lparr>value_tok = str ''-'', type_tok = Some BinaryOperator\<rparr>,
      \<lparr>value_tok = str ''5'', type_tok = Some Number\<rparr>]"
  by (simp add: run)

text \<open>
  C8. For an input that begins with a quote character \<open>q\<close> (double or single), the first
  token is a \<open>StringLiteral\<close> whose lexeme is the units after the opening quote up to
  the first later \<open>q\<close>, taken verbatim; scanning goes on after that closing quote. With
  no later \<open>q\<close> the lexeme is all the remaining input and the result is that one token.
\<close>

theorem string_literal_scan:
  "q = ch (CHR 0x22) \<or> q = ch (CHR 0x27) \<longrightarrow>
     tokenize U (q # rest) =
       \<lparr>value_tok = takeWhile (\<lambda>c. c \<noteq> q) rest, type_tok = Some StringLiteral\<rparr>
       # tokenize U (shift (dropWhile (\<lambda>c. c \<noteq> q) rest))
     \<and> (q \<notin> set rest \<longrightarrow>
          tokenize U (q # rest) = [\<lparr>value_tok = rest, type_tok = Some StringLiteral\<rparr>])"
proof (intro impI)
  assume q: "q = ch (CHR 0x22) \<or> q = ch (CHR 0x27)"
  then have "\<not> isWhitespace q" by (auto simp: isWhitespace_def ch_def)
  then have "skipWhitespace (q # rest) = q # rest" by simp
  from body_StringLiteral[OF this q, of U]
  have step: "tokenize U (q # rest) =
       \<lparr>value_tok = takeWhile (\<lambda>c. c \<noteq> q) rest, type_tok = Some StringLiteral\<rparr>
       # tokenize U (shift (dropWhile (\<lambda>c. c \<noteq> q) rest))"
    by (simp add: tokenize_step)
  have "tokenize U (q # rest) = [\<lparr>value_tok = rest, type_tok = Some StringLiteral\<rparr>]"
    if "q \<notin> set rest"
  proof -
    from that have "takeWhile (\<lambda>c. c \<noteq> q) rest = rest" "dropWhile (\<lambda>c. c \<noteq> q) rest = []"
      by auto
    with step show ?thesis by (simp add: shift_simps tokenize_Nil)
  qed
  with step show "tokenize U (q # rest) =
       \<lparr>value_tok = takeWhile (\<lambda>c. c \<noteq> q) rest, type_tok = Some StringLiteral\<rparr>
       # tokenize U (shift (dropWhile (\<lambda>c. c \<noteq> q) rest))
     \<and> (q \<notin> set rest \<longrightarrow>
          tokenize U (q # rest) = [\<lparr>value_tok = rest, type_tok = Some StringLiteral\<rparr>])"
    by blast
qed

theorem string_literal_scan_witness:
  "(ch (CHR 0x22) = ch (CHR 0x22) \<or> ch (CHR 0x22) = ch (CHR 0x27))
   \<and> takeWhile (\<lambda>c. c \<noteq> ch (CHR 0x22)) (str ''a'' @ [ch (CHR 0x5C), ch (CHR 0x22)] @ str ''b'')
       = str ''a'' @ [ch (CHR 0x5C)]
   \<and> tokenize ascii_only (ch (CHR 0x22) # str ''a'' @ [ch (CHR 0x5C), ch (CHR 0x22)] @ str ''b'') =
       [\<lparr>value_tok = str ''a'' @ [ch (CHR 0x5C)], type_tok = Some StringLiteral\<rparr>,
        \<lparr>value_tok = str ''b'', type_tok = Some Identifier\<rparr>]
   \<and> ch (CHR 0x27) \<notin> set (str ''it is'')
   \<and> tokenize ascii_only (ch (CHR 0x27) # str ''it is'') =
       [\<lparr>value_tok = str ''it is'', type_tok = Some StringLiteral\<rparr>]"
  using string_literal_scan[of "ch (CHR 0x22)" ascii_only
      "str ''a'' @ [ch (CHR 0x5C), ch (CHR 0x22)] @ str ''b''"]
    string_literal_scan[of "ch (CHR 0x27)" ascii_only "str ''it is''"]
  by (simp add: run)

text \<open>
  C5. The loop is the total function \<open>loop\<close>: its termination proof rests on the first
  statement here, that an iteration on a non-empty \<open>src\<close> leaves a strictly shorter
  \<open>src\<close>. The result has at most as many tokens as the input has code units, and the
  lexemes of all tokens together are no longer than the input: every consumed unit goes
  to at most one token.
\<close>

theorem scan_consumes_input:
  "(src \<noteq> [] \<longrightarrow> length (snd (body U src)) < length src)
   \<and> length (tokenize U source) \<le> length source
   \<and> sum_list (map (\<lambda>t. length (value_tok t)) (tokenize U source)) \<le> length source"
  using body_consumes[of src U] tokenize_budget[of U source]
  by (simp add: lexemes_def)

theorem scan_consumes_input_witness:
  "str ''<a x= y>'' \<noteq> []
   \<and> length (snd (body ascii_only (str ''<a x= y>''))) < length (str ''<a x= y>'')
   \<and> length (tokenize ascii_only (str ''<a x= y>'')) = 6
   \<and> sum_list (map (\<lambda>t. length (value_tok t)) (tokenize ascii_only (str ''<a x= y>''))) = 6
   \<and> length (str ''<a x= y>'') = 8"
  using scan_consumes_input[of "str ''<a x= y>''" ascii_only "str ''<a x= y>''"]
  by (simp add: run)

text \<open>
  C9, as amended. White space before the input never changes the token sequence. White
  space after the input does not change it either, unless the input ends inside a string
  literal whose closing quote is missing. (The white space characters are taken to have
  no case forms in the runtime, as is true of all white space of Unicode and is fixed in
  the model for ASCII.) In particular \<open>tokenize("  let  ")\<close> and \<open>tokenize("let")\<close>
  are the same.
\<close>

theorem surrounding_whitespace:
  "list_all isWhitespace w1 \<longrightarrow>
     tokenize U (w1 @ s) = tokenize U s
     \<and> (list_all (\<lambda>c. isWhitespace c \<and> \<not> isAlpha U (Some c)) w2 \<and> \<not> endsInOpenString U s
          \<longrightarrow> tokenize U (w1 @ s @ w2) = tokenize U s)
     \<and> tokenize U (str ''  let  '') = tokenize U (str ''let'')"
proof -
  have "tokenize U (str ''  let  '') = tokenize U (str ''let'')"
    by (simp add: run)
  then show ?thesis
    using tokenize_leading[of w1 U] tokenize_trailing[of U w2 s] by simp
qed

theorem surrounding_whitespace_witness:
  "list_all isWhitespace (str ''  '')
   \<and> list_all (\<lambda>c. isWhitespace c \<and> \<not> isAlpha ascii_only (Some c)) (str ''  '')
   \<and> \<not> endsInOpenString ascii_only (str ''let'')
   \<and> tokenize ascii_only (str ''  '' @ str ''let'' @ str ''  '') = tokenize ascii_only (str ''let'')
   \<and> tokenize ascii_only (str ''  '' @ str ''let'') = tokenize ascii_only (str ''let'')
   \<and> str ''  '' @ str ''let'' @ str ''  '' = str ''  let  ''"
  using surrounding_whitespace[of "str ''  ''" ascii_only "str ''let''" "str ''  ''"]
  by (simp add: run endsInOpenString_Nil endsInOpenString_step openQuote_def)

text \<open>
  C9 fails as the specification states it: after an unterminated string literal, white space at the end of the
  input becomes part of the lexeme.
\<close>

theorem open_string_absorbs_whitespace:
  "list_all isWhitespace [] \<and> list_all isWhitespace (str '' '')
   \<and> tokenize ascii_only ([] @ (ch (CHR 0x22) # str ''a'') @ str '' '')
       = [\<lparr>value_tok = str ''a '', type_tok = Some StringLiteral\<rparr>]
   \<and> tokenize ascii_only (ch (CHR 0x22) # str ''a'')
       = [\<lparr>value_tok = str ''a'', type_tok = Some StringLiteral\<rparr>]"
  by (simp add: run)

end
